theory Spec2Isabelle
  imports Complex_Main "HOL-Library.Word" "HOL-Library.Log_Nat"
begin

section \<open>Python values and exceptions\<close>

text \<open>
  The exceptions the modelled code can raise. A \<open>KeyError\<close> carries the key that a
  dictionary lookup missed, which is a domain name or a frequency in MHz. The
  \<open>ValueError\<close> of \<open>create_submodules\<close> carries the clock frequency its message
  is formatted from. \<open>ResourceError\<close> is what \<open>platform.request\<close> raises for a
  resource the board does not have.
\<close>

datatype pykey = KStr string | KInt int

datatype error =
    ValueError nat
  | KeyError pykey
  | TypeError
  | OverflowError
  | AttributeError
  | ResourceError string

text \<open>
  A clock frequency is a Python float holding a whole number of hertz (amaranth keeps
  the frequency of a clock resource as a float, and the oscillator branch assigns the
  float literal \<open>62.0\<close>). It is modelled by that whole number. Python prints such a
  float below \<open>10^16\<close> as its decimal digits followed by \<open>.0\<close>.
\<close>

fun digits :: "nat \<Rightarrow> string" where
  "digits n = (if n < 10 then [''0123456789'' ! n]
               else digits (n div 10) @ [''0123456789'' ! (n mod 10)])"

declare digits.simps [simp del]

definition str_float :: "nat \<Rightarrow> string" where
  "str_float hz = digits hz @ ''.0''"

section \<open>The module under construction\<close>

text \<open>
  Only what the clock generator puts into the amaranth module is kept: the primitive
  instances it adds as submodules and the combinational assignments it makes. The
  right-hand side of an assignment is an expression over the lock output of the PLL.
\<close>

datatype clk = clk_60MHz | clk_120MHz | clk_240MHz

datatype sig = pll_lock | ResetSignal string

datatype expr = Sig sig | Inv expr

record pll_instance =
  CLKI_DIV :: nat
  CLKFB_DIV :: nat
  CLKOP_DIV :: nat
  CLKOS_DIV :: nat
  CLKOS2_DIV :: nat
  CLKOS3_DIV :: nat
  CLKOP :: clk
  CLKOS :: clk
  CLKOS2 :: clk

datatype primitive = OSCG nat | EHXPLLL pll_instance

record module =
  submodules :: "primitive list"
  comb :: "(sig \<times> expr) list"

definition Module :: module where
  "Module = \<lparr>submodules = [], comb = []\<rparr>"

text \<open>
  The value of an expression on a tick where the lock output has value \<open>lock\<close>.
  The lock output is the only signal this design reads on a right-hand side; an
  expression over anything else has no value here.
\<close>

fun eval :: "bool \<Rightarrow> expr \<Rightarrow> bool option" where
  "eval lock (Sig pll_lock) = Some lock"
| "eval lock (Sig (ResetSignal d)) = None"
| "eval lock (Inv e) = map_option Not (eval lock e)"

text \<open>
  The reset of domain \<open>d\<close> in module \<open>m\<close> on a tick where the lock output is
  \<open>lock\<close>: the value of the expression that drives it combinationally, or \<open>None\<close>
  when the module has no assignment to that reset.
\<close>

definition domain_reset :: "module \<Rightarrow> bool \<Rightarrow> string \<Rightarrow> bool option" where
  "domain_reset m lock d =
     (case map_of (comb m) (ResetSignal d) of
        None \<Rightarrow> None
      | Some e \<Rightarrow> eval lock e)"

section \<open>The platform\<close>

text \<open>
  The parts of the platform object that the modelled code reads. The board definition
  itself (\<open>amaranth_boards.butterstick\<close>) is not part of the repository, so the
  frequency of the default clock, the configured I/O voltages and the resources the
  board offers are fields filled in by the caller. A voltage is a Python float or
  \<open>None\<close>.
\<close>

record platform =
  default_clk :: string
  default_clk_frequency :: nat
  DEFAULT_CLOCK_FREQUENCIES_MHZ :: "string \<rightharpoonup> int"
  vccio_voltage :: "nat \<Rightarrow> real option"
  resources :: "string list"

definition request :: "platform \<Rightarrow> string \<Rightarrow> error + string" where
  "request p name = (if name \<in> set (resources p) then Inr name else Inl (ResourceError name))"

text \<open>\<open>ButterStickPlatform\<close> of \<open>04_usb.py\<close>: the class attributes it sets.\<close>

definition ButterStickPlatform :: "nat \<Rightarrow> (nat \<Rightarrow> real option) \<Rightarrow> string list \<Rightarrow> platform" where
  "ButterStickPlatform hz volts res =
     \<lparr>default_clk = ''clk30'',
      default_clk_frequency = hz,
      DEFAULT_CLOCK_FREQUENCIES_MHZ = [''fast'' \<mapsto> 240, ''sync'' \<mapsto> 120, ''usb'' \<mapsto> 60],
      vccio_voltage = volts,
      resources = res\<rparr>"

section \<open>LunaECP5DomainGenerator\<close>

text \<open>
  The generator object. \<open>clock_name\<close> and \<open>clock_frequency\<close> are set by the
  constructor of the base class from \<open>clock_signal_name\<close> and
  \<open>clock_signal_frequency\<close>; \<open>clock_frequencies\<close> holds the caller's overrides
  (or \<open>None\<close>) until \<open>create_submodules\<close> replaces it by the resolved dictionary;
  \<open>clock_options\<close> does not exist before \<open>create_submodules\<close> has run.
\<close>

record generator =
  clock_name :: "string option"
  clock_frequency :: "nat option"
  clock_frequencies :: "(string \<rightharpoonup> int) option"
  clock_options :: "(int \<rightharpoonup> clk) option"

definition OSCG_DIV :: nat where
  "OSCG_DIV = 5"

definition LunaECP5DomainGenerator :: "(string \<rightharpoonup> int) option \<Rightarrow> string option \<Rightarrow> generator" where
  "LunaECP5DomainGenerator freqs name =
     \<lparr>clock_name = name, clock_frequency = None,
      clock_frequencies = freqs, clock_options = None\<rparr>"

text \<open>
  Lines 93 to 96: a copy of the platform's defaults, updated with the caller's
  dictionary when that is neither \<open>None\<close> nor empty.
\<close>

definition new_clock_frequencies :: "generator \<Rightarrow> platform \<Rightarrow> (string \<rightharpoonup> int)" where
  "new_clock_frequencies self p =
     (case clock_frequencies self of
        None \<Rightarrow> DEFAULT_CLOCK_FREQUENCIES_MHZ p
      | Some ov \<Rightarrow>
          if dom ov \<noteq> {} then DEFAULT_CLOCK_FREQUENCIES_MHZ p ++ ov
          else DEFAULT_CLOCK_FREQUENCIES_MHZ p)"

definition pll_params_per_freq :: "(string \<times> nat) list" where
  "pll_params_per_freq =
     [(''62000000.0'', 4), (''60000000.0'', 4), (''30000000.0'', 8)]"

text \<open>
  Lines 138 to 141: the lookup of the printed frequency in the table. A frequency of
  \<open>None\<close> prints as \<open>None\<close>, misses the table, and the division inside the error
  message raises \<open>TypeError\<close>.
\<close>

definition pll_params :: "nat option \<Rightarrow> error + nat" where
  "pll_params f =
     (case f of
        None \<Rightarrow> Inl TypeError
      | Some hz \<Rightarrow>
          (case map_of pll_params_per_freq (str_float hz) of
             None \<Rightarrow> Inl (ValueError hz)
           | Some fb \<Rightarrow> Inr fb))"

definition ehxpll :: "nat \<Rightarrow> primitive" where
  "ehxpll fb = EHXPLLL \<lparr>CLKI_DIV = 1, CLKFB_DIV = fb, CLKOP_DIV = 2, CLKOS_DIV = 4,
     CLKOS2_DIV = 8, CLKOS3_DIV = 1,
     CLKOP = clk_240MHz, CLKOS = clk_120MHz, CLKOS2 = clk_60MHz\<rparr>"

text \<open>
  \<open>create_submodules\<close>, statement by statement. It returns the updated generator
  and module, or the exception that ended it; a raised exception leaves no module.
\<close>

definition create_submodules :: "generator \<Rightarrow> module \<Rightarrow> platform \<Rightarrow> error + (generator \<times> module)" where
  "create_submodules self m p =
     (let self1 = self\<lparr>clock_frequencies := Some (new_clock_frequencies self p)\<rparr>;
          name = (case clock_name self of
                    None \<Rightarrow> default_clk p
                  | Some n \<Rightarrow> if n \<noteq> [] then n else default_clk p);
          freq = (case clock_name self of
                    None \<Rightarrow> Some (default_clk_frequency p)
                  | Some n \<Rightarrow> if n \<noteq> [] then clock_frequency self
                             else Some (default_clk_frequency p));
          self2 = self1\<lparr>clock_options :=
                    Some [60 \<mapsto> clk_60MHz, 120 \<mapsto> clk_120MHz, 240 \<mapsto> clk_240MHz]\<rparr>
      in case (if name = ''OSCG''
               then Inr (m\<lparr>submodules := submodules m @ [OSCG OSCG_DIV]\<rparr>, Some 62)
               else (case request p name of
                       Inl e \<Rightarrow> Inl e
                     | Inr _ \<Rightarrow> Inr (m, freq))) of
           Inl e \<Rightarrow> Inl e
         | Inr (m1, freq1) \<Rightarrow>
             (case pll_params freq1 of
                Inl e \<Rightarrow> Inl e
              | Inr fb \<Rightarrow>
                  Inr (self2,
                       m1\<lparr>submodules := submodules m1 @ [ehxpll fb],
                          comb := comb m1 @
                            [(ResetSignal ''sync'', Inv (Sig pll_lock)),
                             (ResetSignal ''fast'', Inv (Sig pll_lock))]\<rparr>)))"

text \<open>
  The three \<open>generate_*_clock\<close> methods: two dictionary subscripts, each of which
  raises \<open>KeyError\<close> on a missing key.
\<close>

definition generate_clock :: "string \<Rightarrow> generator \<Rightarrow> error + clk" where
  "generate_clock d self =
     (case clock_options self of
        None \<Rightarrow> Inl AttributeError
      | Some opts \<Rightarrow>
          (case clock_frequencies self of
             None \<Rightarrow> Inl TypeError
           | Some fs \<Rightarrow>
               (case fs d of
                  None \<Rightarrow> Inl (KeyError (KStr d))
                | Some f \<Rightarrow>
                    (case opts f of
                       None \<Rightarrow> Inl (KeyError (KInt f))
                     | Some c \<Rightarrow> Inr c))))"

text \<open>
  The reset of domain \<open>d\<close> in the module that \<open>create_submodules\<close> fills, starting
  from an empty module.
\<close>

definition elaborated_reset :: "generator \<Rightarrow> platform \<Rightarrow> bool \<Rightarrow> string \<Rightarrow> error + bool option" where
  "elaborated_reset self p lock d =
     (case create_submodules self Module p of
        Inl e \<Rightarrow> Inl e
      | Inr (self', m) \<Rightarrow> Inr (domain_reset m lock d))"

definition generate_usb_clock :: "generator \<Rightarrow> error + clk" where
  "generate_usb_clock self = generate_clock ''usb'' self"

definition generate_sync_clock :: "generator \<Rightarrow> error + clk" where
  "generate_sync_clock self = generate_clock ''sync'' self"

definition generate_fast_clock :: "generator \<Rightarrow> error + clk" where
  "generate_fast_clock self = generate_clock ''fast'' self"

section \<open>Python floats\<close>

text \<open>
  A Python float is an IEEE 754 double. A finite double is modelled by the real number
  it denotes, and an arithmetic operation by the exact operation followed by \<open>fl\<close>,
  rounding to the nearest number with a 53-bit significand, ties to the even
  significand. \<open>ilog2 x\<close> is the binary exponent of a positive \<open>x\<close>. The exponent
  is not bounded in \<open>fl\<close>: a result of magnitude \<open>2^1024\<close> or more stands for an
  infinity (tested where the code converts to an integer), and the subnormal range is
  not reached by the expressions below.
\<close>

definition round_even :: "real \<Rightarrow> int" where
  "round_even x =
     (let n = \<lfloor>x\<rfloor>; r = x - of_int n
      in if r < 1 / 2 then n
         else if 1 / 2 < r then n + 1
         else if even n then n else n + 1)"

definition ilog2 :: "real \<Rightarrow> int" where
  "ilog2 x = (if 1 \<le> x then bitlen \<lfloor>x\<rfloor> - 1 else - bitlen (\<lceil>1 / x\<rceil> - 1))"

definition fl :: "real \<Rightarrow> real" where
  "fl x =
     (if x = 0 then 0
      else let e = ilog2 \<bar>x\<bar> - 52
           in sgn x * of_int (round_even (\<bar>x\<bar> / 2 powi e)) * 2 powi e)"

text \<open>
  Python's \<open>int\<close> of a float: truncation toward zero, and \<open>OverflowError\<close> for an
  infinity.
\<close>

definition trunc :: "real \<Rightarrow> int" where
  "trunc x = (if 0 \<le> x then \<lfloor>x\<rfloor> else \<lceil>x\<rceil>)"

definition py_int :: "real \<Rightarrow> error + int" where
  "py_int x = (if 2 ^ 1024 \<le> \<bar>x\<bar> then Inl OverflowError else Inr (trunc x))"

section \<open>VccioCtrl of 04_usb.py\<close>

text \<open>
  A voltage table for three channels, as a platform's \<open>vccio_voltage\<close> would read
  it; channels beyond the third have no voltage.
\<close>

definition voltages :: "real option \<Rightarrow> real option \<Rightarrow> real option \<Rightarrow> nat \<Rightarrow> real option" where
  "voltages v0 v1 v2 i = (if i = 0 then v0 else if i = 1 then v1 else if i = 2 then v2 else None)"

text \<open>The local variable \<open>limit_float\<close> of \<open>_pwm_timer_limit\<close>.\<close>

definition limit_float :: "real \<Rightarrow> real" where
  "limit_float voltage = fl (fl (fl 3.546 - voltage) / fl 2.601)"

text \<open>
  \<open>_pwm_timer_limit\<close>. Subtracting \<open>None\<close> from a float raises \<open>TypeError\<close>.
\<close>

definition pwm_timer_limit :: "platform \<Rightarrow> nat \<Rightarrow> error + int" where
  "pwm_timer_limit p inst =
     (case vccio_voltage p inst of
        None \<Rightarrow> Inl TypeError
      | Some voltage \<Rightarrow> py_int (fl (limit_float voltage * 2 ^ 14)))"

text \<open>
  What \<open>elaborate\<close> puts into its module: nothing, or the 14-bit register
  \<open>pwm_timer\<close> with its increment in the \<open>sync\<close> domain, one comparison of the
  register against a constant for each \<open>pdm\<close> pin, and the constant 1 on \<open>en\<close>.
  \<open>Pwm ls\<close> holds the constants, in pin order.
\<close>

datatype vccio_ctrl = NoLogic | Pwm "int list"

text \<open>
  \<open>elaborate\<close> returns the module and the warnings it logged. The three limits are
  computed in pin order, so the first that raises ends the elaboration.
\<close>

definition elaborate :: "platform \<Rightarrow> error + (vccio_ctrl \<times> string list)" where
  "elaborate p =
     (case vccio_voltage p 0 of
        None \<Rightarrow> Inr (NoLogic, [''VCCIO configuration is required for ULPI USB to function.''])
      | Some _ \<Rightarrow>
          (case pwm_timer_limit p 0 of
             Inl e \<Rightarrow> Inl e
           | Inr l0 \<Rightarrow>
               (case pwm_timer_limit p 1 of
                  Inl e \<Rightarrow> Inl e
                | Inr l1 \<Rightarrow>
                    (case pwm_timer_limit p 2 of
                       Inl e \<Rightarrow> Inl e
                     | Inr l2 \<Rightarrow> Inr (Pwm [l0, l1, l2], [])))))"

section \<open>VccioCtrl of 02_pmod.py and 03_button.py\<close>

text \<open>
  The two demos compare against \<open>int(2**14 * (0.10))\<close> and \<open>int(2**14 * (0.70))\<close>;
  both products are far from the range where \<open>int\<close> raises.
\<close>

definition elaborate_pmod :: vccio_ctrl where
  "elaborate_pmod =
     Pwm [trunc (fl (2 ^ 14 * fl 0.10)), trunc (fl (2 ^ 14 * fl 0.10)),
          trunc (fl (2 ^ 14 * fl 0.70))]"

section \<open>The generated regulator control, tick by tick\<close>

text \<open>
  The register \<open>pwm_timer\<close> is 14 bits wide and lives in the \<open>sync\<close> domain:
  on a tick where that domain's reset is asserted it returns to its reset value 0, on
  any other tick it is replaced by its successor, wrapping at \<open>2^14\<close>. In
  \<open>04_usb.py\<close> the reset of the \<open>sync\<close> domain is the negated lock output of the
  PLL; in the two demos it is the default reset of the board. A comparison of the
  register with a Python integer is a comparison of numbers: amaranth extends both
  operands to a common signed width, so a negative or oversized constant is not reduced
  to 14 bits. A pin that no statement drives keeps its reset value 0.
\<close>

type_synonym timer = "14 word"

definition next_timer :: "vccio_ctrl \<Rightarrow> bool \<Rightarrow> timer \<Rightarrow> timer" where
  "next_timer c rst t = (case c of NoLogic \<Rightarrow> t | Pwm ls \<Rightarrow> if rst then 0 else t + 1)"

definition less_than :: "timer \<Rightarrow> int \<Rightarrow> bool" where
  "less_than t limit = (uint t < limit)"

definition pdm :: "vccio_ctrl \<Rightarrow> nat \<Rightarrow> timer \<Rightarrow> bool" where
  "pdm c i t =
     (case c of
        NoLogic \<Rightarrow> False
      | Pwm ls \<Rightarrow> if i < length ls then less_than t (ls ! i) else False)"


text \<open>
  The values of \<open>pwm_timer\<close> on consecutive ticks, the first being \<open>t\<close>. The list
  \<open>rsts\<close> gives, for each of these ticks, whether the reset of the \<open>sync\<close> domain
  is asserted on it.
\<close>

fun ticks :: "vccio_ctrl \<Rightarrow> bool list \<Rightarrow> timer \<Rightarrow> timer list" where
  "ticks c [] t = []"
| "ticks c (rst # rsts) t = t # ticks c rsts (next_timer c rst t)"

text \<open>On how many of those ticks pin \<open>i\<close> is high.\<close>

definition high_ticks :: "vccio_ctrl \<Rightarrow> nat \<Rightarrow> bool list \<Rightarrow> timer \<Rightarrow> nat" where
  "high_ticks c i rsts t = length (filter (pdm c i) (ticks c rsts t))"

section \<open>The spec's threshold\<close>

text \<open>
  The threshold as the data model of the specification words it: the analytic formula
  times \<open>2^14\<close>, rounded, then clamped to the counter's range. It is compared with
  \<open>pwm_timer_limit\<close> below.
\<close>

definition spec_threshold :: "real \<Rightarrow> int" where
  "spec_threshold v = max 0 (min (2 ^ 14 - 1) (round ((3.546 - v) / 2.601 * 2 ^ 14)))"

section \<open>Clock domains: frequencies, outputs and resets\<close>

lemma pll_params_table:
  "pll_params (Some hz) =
     (if str_float hz = ''62000000.0'' then Inr 4
      else if str_float hz = ''60000000.0'' then Inr 4
      else if str_float hz = ''30000000.0'' then Inr 8
      else Inl (ValueError hz))"
  by (simp add: pll_params_def pll_params_per_freq_def)

lemma pll_params_30: "pll_params (Some 30000000) = Inr 8"
  by (simp add: pll_params_def str_float_def digits.simps pll_params_per_freq_def)

lemma pll_params_60: "pll_params (Some 60000000) = Inr 4"
  by (simp add: pll_params_def str_float_def digits.simps pll_params_per_freq_def)

lemma pll_params_62M: "pll_params (Some 62000000) = Inr 4"
  by (simp add: pll_params_def str_float_def digits.simps pll_params_per_freq_def)

lemma pll_params_62: "pll_params (Some 62) = Inl (ValueError 62)"
  by (simp add: pll_params_def str_float_def digits.simps pll_params_per_freq_def)

lemma digits_length_ge2: "10 \<le> n \<Longrightarrow> 2 \<le> length (digits n)"
  by (subst digits.simps) (simp add: Suc_le_eq, subst digits.simps, simp)

lemma digit_char_inj:
  assumes "a < 10" "b < 10" "''0123456789'' ! a = ''0123456789'' ! b"
  shows "a = b"
proof -
  have "distinct ''0123456789''" by simp
  moreover have "a < length ''0123456789''" "b < length ''0123456789''" using assms by simp_all
  ultimately show ?thesis using assms(3) by (simp only: nth_eq_iff_index_eq)
qed

lemma digits_inj: "digits n = digits m \<Longrightarrow> n = m"
proof (induction n arbitrary: m rule: digits.induct)
  case (1 n)
  show ?case
  proof (cases "n < 10")
    case True
    then have ln: "digits n = [''0123456789'' ! n]" by (subst digits.simps) simp
    show ?thesis
    proof (cases "m < 10")
      case mt: True
      then have "digits m = [''0123456789'' ! m]" by (subst digits.simps) simp
      then show ?thesis using ln "1.prems" True mt digit_char_inj by simp
    next
      case False
      then have "2 \<le> length (digits m)" by (intro digits_length_ge2) simp
      then show ?thesis using ln "1.prems" by simp
    qed
  next
    case False
    then have ln: "digits n = digits (n div 10) @ [''0123456789'' ! (n mod 10)]"
      by (subst digits.simps) simp
    show ?thesis
    proof (cases "m < 10")
      case True
      then have "digits m = [''0123456789'' ! m]" by (subst digits.simps) simp
      moreover have "2 \<le> length (digits n)" using False by (intro digits_length_ge2) simp
      ultimately show ?thesis using "1.prems" by simp
    next
      case mf: False
      then have lm: "digits m = digits (m div 10) @ [''0123456789'' ! (m mod 10)]"
        by (subst digits.simps) simp
      from ln lm "1.prems" have e: "digits (n div 10) = digits (m div 10)"
        and c: "''0123456789'' ! (n mod 10) = ''0123456789'' ! (m mod 10)" by simp_all
      have "n div 10 = m div 10" using "1.IH" [OF False e] .
      moreover have "n mod 10 = m mod 10" using c by (intro digit_char_inj) simp_all
      ultimately show ?thesis by (metis div_mult_mod_eq)
    qed
  qed
qed

lemma str_float_inj: "str_float n = str_float m \<Longrightarrow> n = m"
  by (simp add: str_float_def digits_inj)

lemma str_float_keys:
  "str_float 30000000 = ''30000000.0''" "str_float 60000000 = ''60000000.0''"
  "str_float 62000000 = ''62000000.0''"
  by (simp_all add: str_float_def digits.simps)

lemma pll_params_supported:
  "pll_params (Some hz) =
     (if hz = 30000000 then Inr 8
      else if hz = 60000000 \<or> hz = 62000000 then Inr 4
      else Inl (ValueError hz))"
proof -
  have a: "str_float hz = ''30000000.0'' \<longleftrightarrow> hz = 30000000"
    using str_float_inj [of hz 30000000] by (auto simp: str_float_keys)
  have b: "str_float hz = ''60000000.0'' \<longleftrightarrow> hz = 60000000"
    using str_float_inj [of hz 60000000] by (auto simp: str_float_keys)
  have c: "str_float hz = ''62000000.0'' \<longleftrightarrow> hz = 62000000"
    using str_float_inj [of hz 62000000] by (auto simp: str_float_keys)
  show ?thesis by (auto simp: pll_params_def pll_params_per_freq_def a b c str_float_keys)
qed


lemma create_submodules_frequencies:
  "create_submodules self m p = Inr (self', m') \<Longrightarrow>
   clock_frequencies self' = Some (new_clock_frequencies self p) \<and>
   clock_options self' = Some [60 \<mapsto> clk_60MHz, 120 \<mapsto> clk_120MHz, 240 \<mapsto> clk_240MHz]"
  by (auto simp: create_submodules_def Let_def split: sum.splits if_splits prod.splits option.splits)

lemma create_submodules_comb:
  "create_submodules self m p = Inr (self', m') \<Longrightarrow>
   comb m' = comb m @ [(ResetSignal ''sync'', Inv (Sig pll_lock)),
                       (ResetSignal ''fast'', Inv (Sig pll_lock))]"
  by (auto simp: create_submodules_def Let_def split: sum.splits if_splits prod.splits option.splits)

lemma create_submodules_ButterStick:
  "create_submodules (LunaECP5DomainGenerator fs None) Module
     (ButterStickPlatform 30000000 vs [''clk30'']) =
   Inr (\<lparr>clock_name = None, clock_frequency = None,
         clock_frequencies = Some (new_clock_frequencies (LunaECP5DomainGenerator fs None)
            (ButterStickPlatform 30000000 vs [''clk30''])),
         clock_options = Some [60 \<mapsto> clk_60MHz, 120 \<mapsto> clk_120MHz, 240 \<mapsto> clk_240MHz]\<rparr>,
        \<lparr>submodules = [ehxpll 8],
         comb = [(ResetSignal ''sync'', Inv (Sig pll_lock)),
                 (ResetSignal ''fast'', Inv (Sig pll_lock))]\<rparr>)"
  by (simp add: create_submodules_def Let_def LunaECP5DomainGenerator_def
      ButterStickPlatform_def request_def Module_def pll_params_30)


lemma generator_fields:
  "clock_name (LunaECP5DomainGenerator fs n) = n"
  "clock_frequency (LunaECP5DomainGenerator fs n) = None"
  "clock_frequencies (LunaECP5DomainGenerator fs n) = fs"
  "clock_options (LunaECP5DomainGenerator fs n) = None"
  by (simp_all add: LunaECP5DomainGenerator_def)

lemma ButterStick_fields:
  "default_clk (ButterStickPlatform hz vs res) = ''clk30''"
  "default_clk_frequency (ButterStickPlatform hz vs res) = hz"
  "DEFAULT_CLOCK_FREQUENCIES_MHZ (ButterStickPlatform hz vs res) =
     [''fast'' \<mapsto> 240, ''sync'' \<mapsto> 120, ''usb'' \<mapsto> 60]"
  "vccio_voltage (ButterStickPlatform hz vs res) = vs"
  "resources (ButterStickPlatform hz vs res) = res"
  by (simp_all add: ButterStickPlatform_def)

text \<open>
  C8. The selector resolves each domain's frequency from the board default and the
  caller's overrides key by key: a domain named in the override dictionary gets the
  override, any other keeps the platform's default; the resolved dictionary is what
  \<open>create_submodules\<close> stores in the generator.
\<close>

theorem overrides_take_precedence:
  assumes "create_submodules self m p = Inr (self', m')"
  shows "clock_frequencies self' = Some (new_clock_frequencies self p) \<and>
         new_clock_frequencies self p d =
           (case clock_frequencies self of
              None \<Rightarrow> DEFAULT_CLOCK_FREQUENCIES_MHZ p d
            | Some ov \<Rightarrow>
                (case ov d of
                   Some f \<Rightarrow> Some f
                 | None \<Rightarrow> DEFAULT_CLOCK_FREQUENCIES_MHZ p d))"
proof
  show "clock_frequencies self' = Some (new_clock_frequencies self p)"
    using assms by (simp add: create_submodules_frequencies)
  show "new_clock_frequencies self p d =
           (case clock_frequencies self of
              None \<Rightarrow> DEFAULT_CLOCK_FREQUENCIES_MHZ p d
            | Some ov \<Rightarrow>
                (case ov d of
                   Some f \<Rightarrow> Some f
                 | None \<Rightarrow> DEFAULT_CLOCK_FREQUENCIES_MHZ p d))"
    by (auto simp: new_clock_frequencies_def map_add_def split: option.splits)
qed

theorem overrides_take_precedence_witness:
  "create_submodules (LunaECP5DomainGenerator (Some [''sync'' \<mapsto> 60]) None) Module
     (ButterStickPlatform 30000000 (voltages None None None) [''clk30'']) =
   Inr (\<lparr>clock_name = None, clock_frequency = None,
         clock_frequencies = Some (new_clock_frequencies
            (LunaECP5DomainGenerator (Some [''sync'' \<mapsto> 60]) None)
            (ButterStickPlatform 30000000 (voltages None None None) [''clk30''])),
         clock_options = Some [60 \<mapsto> clk_60MHz, 120 \<mapsto> clk_120MHz, 240 \<mapsto> clk_240MHz]\<rparr>,
        \<lparr>submodules = [ehxpll 8],
         comb = [(ResetSignal ''sync'', Inv (Sig pll_lock)),
                 (ResetSignal ''fast'', Inv (Sig pll_lock))]\<rparr>)
   \<and> new_clock_frequencies (LunaECP5DomainGenerator (Some [''sync'' \<mapsto> 60]) None)
         (ButterStickPlatform 30000000 (voltages None None None) [''clk30'']) ''sync'' = Some 60
   \<and> new_clock_frequencies (LunaECP5DomainGenerator (Some [''sync'' \<mapsto> 60]) None)
         (ButterStickPlatform 30000000 (voltages None None None) [''clk30'']) ''fast'' = Some 240"
  using overrides_take_precedence [OF create_submodules_ButterStick, of "Some [''sync'' \<mapsto> 60]" "voltages None None None" "''sync''"]
    overrides_take_precedence [OF create_submodules_ButterStick, of "Some [''sync'' \<mapsto> 60]" "voltages None None None" "''fast''"]
  by (simp add: create_submodules_ButterStick generator_fields ButterStick_fields)

text \<open>
  C5. After \<open>create_submodules\<close>, asking for the clock of a domain whose resolved
  frequency is 60, 120 or 240 MHz yields the PLL output of that frequency, and any other
  resolved frequency ends the elaboration with the \<open>KeyError\<close> of the failed lookup
  in the table of outputs.
\<close>

theorem only_three_taps_selectable:
  assumes "create_submodules self m p = Inr (self', m')"
    and "new_clock_frequencies self p d = Some f"
  shows "generate_clock d self' =
           (if f = 60 then Inr clk_60MHz
            else if f = 120 then Inr clk_120MHz
            else if f = 240 then Inr clk_240MHz
            else Inl (KeyError (KInt f)))
         \<and> generate_usb_clock self' = generate_clock ''usb'' self'
         \<and> generate_sync_clock self' = generate_clock ''sync'' self'
         \<and> generate_fast_clock self' = generate_clock ''fast'' self'"
  using create_submodules_frequencies [OF assms(1)] assms(2)
  by (simp add: generate_clock_def generate_usb_clock_def generate_sync_clock_def
      generate_fast_clock_def)

theorem only_three_taps_selectable_witness:
  "generate_sync_clock
     \<lparr>clock_name = None, clock_frequency = None,
      clock_frequencies = Some (new_clock_frequencies
         (LunaECP5DomainGenerator (Some [''sync'' \<mapsto> 100]) None)
         (ButterStickPlatform 30000000 (voltages None None None) [''clk30''])),
      clock_options = Some [60 \<mapsto> clk_60MHz, 120 \<mapsto> clk_120MHz, 240 \<mapsto> clk_240MHz]\<rparr>
   = Inl (KeyError (KInt 100))
   \<and> generate_fast_clock
     \<lparr>clock_name = None, clock_frequency = None,
      clock_frequencies = Some (new_clock_frequencies
         (LunaECP5DomainGenerator (Some [''sync'' \<mapsto> 100]) None)
         (ButterStickPlatform 30000000 (voltages None None None) [''clk30''])),
      clock_options = Some [60 \<mapsto> clk_60MHz, 120 \<mapsto> clk_120MHz, 240 \<mapsto> clk_240MHz]\<rparr>
   = Inr clk_240MHz"
proof -
  let ?g = "LunaECP5DomainGenerator (Some [''sync'' \<mapsto> 100]) None"
  let ?p = "ButterStickPlatform 30000000 (voltages None None None) [''clk30'']"
  have s: "new_clock_frequencies ?g ?p ''sync'' = Some 100"
    by (simp add: new_clock_frequencies_def generator_fields ButterStick_fields)
  have f: "new_clock_frequencies ?g ?p ''fast'' = Some 240"
    by (simp add: new_clock_frequencies_def generator_fields ButterStick_fields)
  show ?thesis
    using only_three_taps_selectable [OF create_submodules_ButterStick s]
      only_three_taps_selectable [OF create_submodules_ButterStick f]
    by simp
qed

text \<open>
  C2. The reference frequency is looked up by exact match: 30 MHz gives the parameter
  record with \<open>CLKFB_DIV = 8\<close>, 60 MHz and 62 MHz give \<open>CLKFB_DIV = 4\<close>, and every
  other frequency raises \<open>ValueError\<close>; the lookup raises exactly for the
  unsupported frequencies. With the platform's default clock as the reference,
  \<open>create_submodules\<close> instantiates the PLL with the record found, and for an
  unsupported frequency it ends in the error with no module built.
\<close>

theorem frequency_validation:
  assumes "clock_name self = None" and "default_clk p \<noteq> ''OSCG''"
    and "default_clk p \<in> set (resources p)"
  shows "pll_params (Some hz) =
           (if hz = 30000000 then Inr 8
            else if hz = 60000000 \<or> hz = 62000000 then Inr 4
            else Inl (ValueError hz))
         \<and> create_submodules self m p =
           (case pll_params (Some (default_clk_frequency p)) of
              Inl e \<Rightarrow> Inl e
            | Inr fb \<Rightarrow>
                Inr (self\<lparr>clock_frequencies := Some (new_clock_frequencies self p),
                          clock_options :=
                            Some [60 \<mapsto> clk_60MHz, 120 \<mapsto> clk_120MHz, 240 \<mapsto> clk_240MHz]\<rparr>,
                     m\<lparr>submodules := submodules m @ [ehxpll fb],
                       comb := comb m @
                         [(ResetSignal ''sync'', Inv (Sig pll_lock)),
                          (ResetSignal ''fast'', Inv (Sig pll_lock))]\<rparr>))"
proof
  show "pll_params (Some hz) =
           (if hz = 30000000 then Inr 8
            else if hz = 60000000 \<or> hz = 62000000 then Inr 4
            else Inl (ValueError hz))"
    by (rule pll_params_supported)
  show "create_submodules self m p =
           (case pll_params (Some (default_clk_frequency p)) of
              Inl e \<Rightarrow> Inl e
            | Inr fb \<Rightarrow>
                Inr (self\<lparr>clock_frequencies := Some (new_clock_frequencies self p),
                          clock_options :=
                            Some [60 \<mapsto> clk_60MHz, 120 \<mapsto> clk_120MHz, 240 \<mapsto> clk_240MHz]\<rparr>,
                     m\<lparr>submodules := submodules m @ [ehxpll fb],
                       comb := comb m @
                         [(ResetSignal ''sync'', Inv (Sig pll_lock)),
                          (ResetSignal ''fast'', Inv (Sig pll_lock))]\<rparr>))"
    using assms by (simp add: create_submodules_def Let_def request_def split: sum.splits)
qed

theorem frequency_validation_witness:
  "create_submodules (LunaECP5DomainGenerator None None) Module
     (ButterStickPlatform 30000000 (voltages None None None) [''clk30'']) =
   Inr ((LunaECP5DomainGenerator None None)
          \<lparr>clock_frequencies := Some (new_clock_frequencies (LunaECP5DomainGenerator None None)
              (ButterStickPlatform 30000000 (voltages None None None) [''clk30''])),
           clock_options := Some [60 \<mapsto> clk_60MHz, 120 \<mapsto> clk_120MHz, 240 \<mapsto> clk_240MHz]\<rparr>,
        Module\<lparr>submodules := submodules Module @ [ehxpll 8],
               comb := comb Module @
                 [(ResetSignal ''sync'', Inv (Sig pll_lock)),
                  (ResetSignal ''fast'', Inv (Sig pll_lock))]\<rparr>) \<and>
   create_submodules (LunaECP5DomainGenerator None None) Module
     (ButterStickPlatform 25000000 (voltages None None None) [''clk30'']) =
   Inl (ValueError 25000000)"
proof -
  let ?g = "LunaECP5DomainGenerator None None"
  have n: "clock_name ?g = None" by (simp add: generator_fields)
  let ?p = "ButterStickPlatform 30000000 (voltages None None None) [''clk30'']"
  let ?q = "ButterStickPlatform 25000000 (voltages None None None) [''clk30'']"
  have a: "default_clk ?p \<noteq> ''OSCG''" "default_clk ?q \<noteq> ''OSCG''"
    by (simp_all add: ButterStick_fields)
  have b: "default_clk ?p \<in> set (resources ?p)" "default_clk ?q \<in> set (resources ?q)"
    by (simp_all add: ButterStick_fields)
  show ?thesis
    using frequency_validation [of ?g ?p 30000000 Module, OF n a(1) b(1)]
      frequency_validation [of ?g ?q 25000000 Module, OF n a(2) b(2)]
    by (simp add: ButterStick_fields)
qed

text \<open>
  With \<open>clock_signal_name = "OSCG"\<close> the frequency handed to the lookup is the
  float \<open>62.0\<close> that line 125 assigns, which is 62 Hz and not a key of the table.
\<close>

lemma create_submodules_OSCG:
  "create_submodules (LunaECP5DomainGenerator fs (Some ''OSCG'')) Module p = Inl (ValueError 62)"
  by (simp add: create_submodules_def LunaECP5DomainGenerator_def Let_def pll_params_62)

text \<open>
  C1, as stated, fails for the \<open>usb\<close> domain: the module that \<open>create_submodules\<close>
  fills has no assignment to that domain's reset, so with the lock deasserted the
  reset is not the asserted value the claim requires.
\<close>

theorem usb_reset_not_driven:
  "elaborated_reset (LunaECP5DomainGenerator None None)
     (ButterStickPlatform 30000000 (voltages None None None) [''clk30'']) False ''usb''
   \<noteq> Inr (Some (\<not> False))"
  by (simp add: elaborated_reset_def create_submodules_ButterStick domain_reset_def)

text \<open>
  C1, amended. In the module that \<open>create_submodules\<close> fills, the resets of the
  \<open>sync\<close> and \<open>fast\<close> domains are the negation of the lock output on every
  tick, combinationally; the reset of the \<open>usb\<close> domain, like that of any other
  domain, is not driven there.
\<close>

theorem resets_follow_lock:
  assumes "elaborated_reset self p lock d = Inr r"
  shows "r = (if d = ''sync'' \<or> d = ''fast'' then Some (\<not> lock) else None)"
proof -
  obtain self' m where c: "create_submodules self Module p = Inr (self', m)"
    and r: "r = domain_reset m lock d"
    using assms by (auto simp: elaborated_reset_def split: sum.splits)
  have "comb m = [(ResetSignal ''sync'', Inv (Sig pll_lock)),
                  (ResetSignal ''fast'', Inv (Sig pll_lock))]"
    using create_submodules_comb [OF c] by (simp add: Module_def)
  then show ?thesis using r by (auto simp: domain_reset_def)
qed

theorem resets_follow_lock_witness:
  "elaborated_reset (LunaECP5DomainGenerator None None)
     (ButterStickPlatform 30000000 (voltages None None None) [''clk30'']) False ''sync''
   = Inr (Some True)
   \<and> elaborated_reset (LunaECP5DomainGenerator None None)
     (ButterStickPlatform 30000000 (voltages None None None) [''clk30'']) True ''fast''
   = Inr (Some False)
   \<and> elaborated_reset (LunaECP5DomainGenerator None None)
     (ButterStickPlatform 30000000 (voltages None None None) [''clk30'']) False ''usb''
   = Inr None"
proof -
  let ?g = "LunaECP5DomainGenerator None None"
  let ?p = "ButterStickPlatform 30000000 (voltages None None None) [''clk30'']"
  let ?m = "\<lparr>submodules = [ehxpll 8],
         comb = [(ResetSignal ''sync'', Inv (Sig pll_lock)),
                 (ResetSignal ''fast'', Inv (Sig pll_lock))]\<rparr>"
  have a: "elaborated_reset ?g ?p False ''sync'' = Inr (domain_reset ?m False ''sync'')"
    by (simp add: elaborated_reset_def create_submodules_ButterStick)
  have b: "elaborated_reset ?g ?p True ''fast'' = Inr (domain_reset ?m True ''fast'')"
    by (simp add: elaborated_reset_def create_submodules_ButterStick)
  have c: "elaborated_reset ?g ?p False ''usb'' = Inr (domain_reset ?m False ''usb'')"
    by (simp add: elaborated_reset_def create_submodules_ButterStick)
  show ?thesis
    using resets_follow_lock [OF a] resets_follow_lock [OF b] resets_follow_lock [OF c] a b c
    by simp
qed

section \<open>Rounding and the duty threshold\<close>

lemma round_even_cases: "round_even x = \<lfloor>x\<rfloor> \<or> round_even x = \<lfloor>x\<rfloor> + 1"
  by (simp add: round_even_def Let_def)

lemma round_even_of_int: "round_even (of_int n) = n"
  by (simp add: round_even_def Let_def)

lemma round_even_mono: "x \<le> y \<Longrightarrow> round_even x \<le> round_even y"
proof -
  assume xy: "x \<le> y"
  have fm: "\<lfloor>x\<rfloor> \<le> \<lfloor>y\<rfloor>" using xy by (rule floor_mono)
  show ?thesis
  proof (cases "\<lfloor>x\<rfloor> = \<lfloor>y\<rfloor>")
    case True
    then show ?thesis using xy by (auto simp: round_even_def Let_def)
  next
    case False
    then have "\<lfloor>x\<rfloor> + 1 \<le> \<lfloor>y\<rfloor>" using fm by simp
    moreover have "round_even x \<le> \<lfloor>x\<rfloor> + 1" using round_even_cases [of x] by auto
    moreover have "\<lfloor>y\<rfloor> \<le> round_even y" using round_even_cases [of y] by auto
    ultimately show ?thesis by linarith
  qed
qed

lemma round_even_ge: "of_int a \<le> x \<Longrightarrow> a \<le> round_even x"
  using round_even_mono [of "of_int a" x] by (simp add: round_even_of_int)

lemma round_even_le: "x \<le> of_int b \<Longrightarrow> round_even x \<le> b"
  using round_even_mono [of x "of_int b"] by (simp add: round_even_of_int)

lemma ilog2_bounds:
  assumes "0 < x"
  shows "2 powi (ilog2 x) \<le> x" and "x < 2 powi (ilog2 x + 1)"
proof -
  have "2 powi (ilog2 x) \<le> x \<and> x < 2 powi (ilog2 x + 1)"
  proof (cases "1 \<le> x")
    case True
    define n where "n = \<lfloor>x\<rfloor>"
    have n: "0 < n" using True by (simp add: n_def)
    have b1: "1 \<le> bitlen n" using n by (auto simp: bitlen_alt_def)
    from bitlen_bounds [OF n] have lo: "2 ^ nat (bitlen n - 1) \<le> n" and hi: "n < 2 ^ nat (bitlen n)"
      by auto
    have "(2::real) ^ nat (bitlen n - 1) \<le> of_int n"
      using lo by (metis of_int_le_iff of_int_numeral of_int_power)
    also have "\<dots> \<le> x" by (simp add: n_def)
    finally have A: "(2::real) powi (bitlen n - 1) \<le> x"
      using b1 by (simp add: power_int_def)
    have "n + 1 \<le> 2 ^ nat (bitlen n)" using hi by simp
    then have "of_int (n + 1) \<le> (2::real) ^ nat (bitlen n)"
      by (metis of_int_le_iff of_int_numeral of_int_power)
    moreover have "x < of_int (n + 1)" by (simp add: n_def)
    ultimately have "x < (2::real) ^ nat (bitlen n)" by linarith
    then have B: "x < (2::real) powi (bitlen n)"
      using b1 by (simp add: power_int_def)
    show ?thesis using True A B by (simp add: ilog2_def n_def)
  next
    case False
    define c where "c = \<lceil>1 / x\<rceil> - 1"
    define k where "k = bitlen c"
    have y1: "1 < 1 / x" using False assms by simp
    have c: "0 < c" using y1 unfolding c_def by linarith
    have k1: "1 \<le> k" using c by (auto simp: bitlen_alt_def k_def)
    from bitlen_bounds [OF c] have lo: "2 ^ nat (k - 1) \<le> c" and hi: "c < 2 ^ nat k"
      by (auto simp: k_def)
    have "(2::real) ^ nat (k - 1) \<le> of_int c"
      using lo by (metis of_int_le_iff of_int_numeral of_int_power)
    also have "\<dots> < 1 / x" unfolding c_def by linarith
    finally have A: "(2::real) ^ nat (k - 1) < 1 / x" .
    have "c + 1 \<le> 2 ^ nat k" using hi by simp
    then have "of_int (c + 1) \<le> (2::real) ^ nat k"
      by (metis of_int_le_iff of_int_numeral of_int_power)
    moreover have "1 / x \<le> of_int (c + 1)" by (simp add: c_def)
    ultimately have B: "1 / x \<le> (2::real) ^ nat k" by linarith
    have B': "1 / (2::real) ^ nat k \<le> x"
      using B assms by (simp add: field_simps)
    have A': "x < 1 / (2::real) ^ nat (k - 1)"
      using A assms by (simp add: field_simps)
    have e1: "(2::real) powi (- k) = 1 / 2 ^ nat k"
      using k1 by (simp add: power_int_def field_simps)
    have e2: "(2::real) powi (- k + 1) = 1 / 2 ^ nat (k - 1)"
    proof (cases "k = 1")
      case True then show ?thesis by simp
    next
      case False
      then have "- k + 1 < 0" using k1 by simp
      moreover have "nat (k - 1) = nat (- (- k + 1))" by simp
      ultimately show ?thesis by (simp add: power_int_def field_simps)
    qed
    show ?thesis using False A' B' e1 e2 by (simp add: ilog2_def c_def k_def)
  qed
  then show "2 powi (ilog2 x) \<le> x" and "x < 2 powi (ilog2 x + 1)" by auto
qed

lemma ilog2_mono:
  assumes "0 < x" "x \<le> y"
  shows "ilog2 x \<le> ilog2 y"
proof (rule ccontr)
  assume "\<not> ilog2 x \<le> ilog2 y"
  then have "ilog2 y + 1 \<le> ilog2 x" by simp
  then have "(2::real) powi (ilog2 y + 1) \<le> 2 powi (ilog2 x)"
    by (intro power_int_increasing) auto
  also have "\<dots> \<le> x" using ilog2_bounds(1) [OF assms(1)] .
  also have "\<dots> \<le> y" by fact
  also have "\<dots> < 2 powi (ilog2 y + 1)" using ilog2_bounds(2) [of y] assms by simp
  finally show False by simp
qed


lemma fl_zero: "fl 0 = 0"
  by (simp add: fl_def)

lemma fl_minus: "fl (- x) = - fl x"
  by (simp add: fl_def Let_def sgn_minus)

lemma fl_pos_eq: "0 < x \<Longrightarrow> fl x = of_int (round_even (x / 2 powi (ilog2 x - 52))) * 2 powi (ilog2 x - 52)"
  by (simp add: fl_def Let_def)

lemma scaled_bounds:
  assumes "0 < x"
  shows "2 ^ 52 \<le> x / 2 powi (ilog2 x - 52)" and "x / 2 powi (ilog2 x - 52) < 2 ^ 53"
proof -
  have p: "(0::real) < 2 powi (ilog2 x - 52)" by (simp add: zero_less_power_int)
  have a: "(2::real) powi (ilog2 x) = 2 ^ 52 * 2 powi (ilog2 x - 52)"
    using power_int_add [of "2::real" 52 "ilog2 x - 52"] by simp
  have b: "(2::real) powi (ilog2 x + 1) = 2 ^ 53 * 2 powi (ilog2 x - 52)"
    using power_int_add [of "2::real" 53 "ilog2 x - 52"] by (simp add: add.commute)
  show "2 ^ 52 \<le> x / 2 powi (ilog2 x - 52)"
    using ilog2_bounds(1) [OF assms] p a by (simp add: pos_le_divide_eq)
  show "x / 2 powi (ilog2 x - 52) < 2 ^ 53"
    using ilog2_bounds(2) [OF assms] p b by (simp add: pos_divide_less_eq)
qed

lemma fl_pos_bounds:
  assumes "0 < x"
  shows "2 powi (ilog2 x) \<le> fl x" and "fl x \<le> 2 powi (ilog2 x + 1)"
proof -
  let ?s = "(2::real) powi (ilog2 x - 52)"
  have p: "0 < ?s" by (simp add: zero_less_power_int)
  have a: "(2::real) powi (ilog2 x) = 2 ^ 52 * ?s"
    using power_int_add [of "2::real" 52 "ilog2 x - 52"] by simp
  have b: "(2::real) powi (ilog2 x + 1) = 2 ^ 53 * ?s"
    using power_int_add [of "2::real" 53 "ilog2 x - 52"] by (simp add: add.commute)
  have "of_int (2 ^ 52) \<le> x / ?s" using scaled_bounds(1) [OF assms] by simp
  then have "2 ^ 52 \<le> round_even (x / ?s)" by (rule round_even_ge)
  then have lo: "(2::real) ^ 52 \<le> of_int (round_even (x / ?s))"
    by (metis of_int_le_iff of_int_numeral of_int_power)
  have "x / ?s \<le> of_int (2 ^ 53)" using scaled_bounds(2) [OF assms] by simp
  then have "round_even (x / ?s) \<le> 2 ^ 53" by (rule round_even_le)
  then have hi: "of_int (round_even (x / ?s)) \<le> (2::real) ^ 53"
    by (metis of_int_le_iff of_int_numeral of_int_power)
  show "2 powi (ilog2 x) \<le> fl x"
    unfolding fl_pos_eq [OF assms] a using lo p by (simp add: mult_right_mono)
  show "fl x \<le> 2 powi (ilog2 x + 1)"
    unfolding fl_pos_eq [OF assms] b using hi p by (simp add: mult_right_mono)
qed

lemma fl_pos: "0 < x \<Longrightarrow> 0 < fl x"
proof -
  assume x: "0 < x"
  have "(0::real) < 2 powi (ilog2 x)" by (simp add: zero_less_power_int)
  then show ?thesis using fl_pos_bounds(1) [OF x] by linarith
qed

lemma fl_mono_pos:
  assumes "0 < x" "x \<le> y"
  shows "fl x \<le> fl y"
proof (cases "ilog2 x = ilog2 y")
  case True
  let ?s = "(2::real) powi (ilog2 y - 52)"
  have p: "0 < ?s" by (simp add: zero_less_power_int)
  have y: "0 < y" using assms by simp
  have "x / ?s \<le> y / ?s" using assms p by (simp add: divide_right_mono)
  then have "round_even (x / ?s) \<le> round_even (y / ?s)" by (rule round_even_mono)
  then have "(of_int (round_even (x / ?s)) :: real) \<le> of_int (round_even (y / ?s))" by simp
  then show ?thesis
    unfolding fl_pos_eq [OF assms(1)] fl_pos_eq [OF y] True using p by (simp add: mult_right_mono)
next
  case False
  have y: "0 < y" using assms by simp
  have "ilog2 x \<le> ilog2 y" using assms by (rule ilog2_mono)
  then have "ilog2 x + 1 \<le> ilog2 y" using False by simp
  then have "(2::real) powi (ilog2 x + 1) \<le> 2 powi (ilog2 y)"
    by (intro power_int_increasing) auto
  then show ?thesis
    using fl_pos_bounds(2) [OF assms(1)] fl_pos_bounds(1) [OF y] by linarith
qed

lemma fl_mono: "x \<le> y \<Longrightarrow> fl x \<le> fl y"
proof -
  assume xy: "x \<le> y"
  consider "0 < x" | "x = 0" | "x < 0" "0 < y" | "x < 0" "y = 0" | "y < 0"
    using xy by linarith
  then show ?thesis
  proof cases
    case 1 then show ?thesis using xy by (rule fl_mono_pos)
  next
    case 2
    then show ?thesis using xy fl_pos [of y] by (cases "y = 0") (auto simp: fl_zero)
  next
    case 3
    then show ?thesis using fl_pos [of y] fl_pos [of "- x"] by (simp add: fl_minus)
  next
    case 4
    then show ?thesis using fl_pos [of "- x"] by (simp add: fl_minus fl_zero)
  next
    case 5
    then have "fl (- y) \<le> fl (- x)" using xy by (intro fl_mono_pos) auto
    then show ?thesis by (simp add: fl_minus)
  qed
qed


lemma fl_neg: "x < 0 \<Longrightarrow> fl x < 0"
  using fl_pos [of "- x"] by (simp add: fl_minus)

lemma fl_nonneg: "0 \<le> x \<Longrightarrow> 0 \<le> fl x"
  using fl_mono [of 0 x] by (simp add: fl_zero)

lemma fl_2601_pos: "0 < fl 2.601"
  by (rule fl_pos) simp

lemma limit_float_antimono: "v1 \<le> v2 \<Longrightarrow> limit_float v2 \<le> limit_float v1"
proof -
  assume "v1 \<le> v2"
  then have "fl (fl 3.546 - v2) \<le> fl (fl 3.546 - v1)" by (intro fl_mono) simp
  then have "fl (fl 3.546 - v2) / fl 2.601 \<le> fl (fl 3.546 - v1) / fl 2.601"
    using fl_2601_pos by (simp add: divide_right_mono)
  then show ?thesis unfolding limit_float_def by (rule fl_mono)
qed

lemma product_antimono:
  "v1 \<le> v2 \<Longrightarrow> fl (limit_float v2 * 2 ^ 14) \<le> fl (limit_float v1 * 2 ^ 14)"
  by (intro fl_mono mult_right_mono limit_float_antimono) simp_all

lemma product_nonneg: "v \<le> fl 3.546 \<Longrightarrow> 0 \<le> fl (limit_float v * 2 ^ 14)"
proof -
  assume "v \<le> fl 3.546"
  then have "0 \<le> fl (fl 3.546 - v)" by (intro fl_nonneg) simp
  then have "0 \<le> fl (fl 3.546 - v) / fl 2.601" using fl_2601_pos by simp
  then have "0 \<le> limit_float v" unfolding limit_float_def by (rule fl_nonneg)
  then show ?thesis by (intro fl_nonneg) simp
qed

lemma product_neg: "fl 3.546 < v \<Longrightarrow> fl (limit_float v * 2 ^ 14) < 0"
proof -
  assume "fl 3.546 < v"
  then have "fl (fl 3.546 - v) < 0" by (intro fl_neg) simp
  then have "fl (fl 3.546 - v) / fl 2.601 < 0" using fl_2601_pos by (simp add: divide_neg_pos)
  then have "limit_float v < 0" unfolding limit_float_def by (rule fl_neg)
  then show ?thesis by (intro fl_neg) (simp add: mult_neg_pos)
qed

lemma trunc_mono: "x \<le> y \<Longrightarrow> trunc x \<le> trunc y"
proof -
  assume xy: "x \<le> y"
  consider "0 \<le> x" | "x < 0" "0 \<le> y" | "y < 0" using xy by linarith
  then show ?thesis
  proof cases
    case 1
    then show ?thesis using xy by (simp add: trunc_def floor_mono)
  next
    case 2
    have "\<lceil>x\<rceil> \<le> 0" using 2(1) by (simp add: ceiling_le_iff)
    moreover have "0 \<le> \<lfloor>y\<rfloor>" using 2(2) by simp
    ultimately have "\<lceil>x\<rceil> \<le> \<lfloor>y\<rfloor>" by linarith
    moreover have "trunc x = \<lceil>x\<rceil>" using 2(1) by (simp add: trunc_def)
    moreover have "trunc y = \<lfloor>y\<rfloor>" using 2(2) by (simp add: trunc_def)
    ultimately show ?thesis by simp
  next
    case 3
    then show ?thesis using xy by (simp add: trunc_def ceiling_mono)
  qed
qed

lemma product_finite:
  assumes "- 1000 \<le> v" "v \<le> 1000"
  shows "\<bar>fl (limit_float v * 2 ^ 14)\<bar> < 2 ^ 1024"
proof -
  have hi: "fl (limit_float (- 1000) * 2 ^ 14) < 2 ^ 1024"
    unfolding limit_float_def by code_simp
  have lo: "- (2 ^ 1024) < fl (limit_float 1000 * 2 ^ 14)"
    unfolding limit_float_def by code_simp
  show ?thesis
    using product_antimono [OF assms(1)] product_antimono [OF assms(2)] hi lo by linarith
qed

lemma pwm_timer_limit_value:
  assumes "vccio_voltage p i = Some v" "- 1000 \<le> v" "v \<le> 1000"
  shows "pwm_timer_limit p i = Inr (trunc (fl (limit_float v * 2 ^ 14)))"
  using product_finite [OF assms(2,3)] assms(1) by (simp add: pwm_timer_limit_def py_int_def)

lemma voltages_simps:
  "voltages v0 v1 v2 0 = v0" "voltages v0 v1 v2 (Suc 0) = v1" "voltages v0 v1 v2 2 = v2"
  by (simp_all add: voltages_def)

lemma elaborate_Pwm:
  assumes "elaborate p = Inr (c, ws)" and "vccio_voltage p 0 \<noteq> None"
  shows "\<exists>l0 l1 l2. c = Pwm [l0, l1, l2] \<and> ws = [] \<and> pwm_timer_limit p 0 = Inr l0 \<and>
           pwm_timer_limit p 1 = Inr l1 \<and> pwm_timer_limit p 2 = Inr l2"
  using assms by (auto simp: elaborate_def split: option.splits sum.splits)

text \<open>
  C9. The duty threshold is monotonically non-increasing in the target voltage: of two
  voltages \<open>v1 \<le> v2\<close> the higher never gets the higher threshold. This holds
  for all voltages between -1000 V and 1000 V, a range that contains the calibrated
  one (0.945 V to 3.546 V); both thresholds are computed without an exception there.
\<close>

theorem threshold_antimono:
  assumes "vccio_voltage p i = Some v1" and "vccio_voltage q j = Some v2"
    and "- 1000 \<le> v1" and "v1 \<le> v2" and "v2 \<le> 1000"
  shows "pwm_timer_limit p i = Inr (trunc (fl (limit_float v1 * 2 ^ 14))) \<and>
         pwm_timer_limit q j = Inr (trunc (fl (limit_float v2 * 2 ^ 14))) \<and>
         trunc (fl (limit_float v2 * 2 ^ 14)) \<le> trunc (fl (limit_float v1 * 2 ^ 14))"
proof -
  have "pwm_timer_limit p i = Inr (trunc (fl (limit_float v1 * 2 ^ 14)))"
    using assms by (intro pwm_timer_limit_value) auto
  moreover have "pwm_timer_limit q j = Inr (trunc (fl (limit_float v2 * 2 ^ 14)))"
    using assms by (intro pwm_timer_limit_value) auto
  moreover have "trunc (fl (limit_float v2 * 2 ^ 14)) \<le> trunc (fl (limit_float v1 * 2 ^ 14))"
    using assms(4) by (intro trunc_mono product_antimono)
  ultimately show ?thesis by simp
qed

theorem threshold_antimono_witness:
  "pwm_timer_limit (ButterStickPlatform 30000000
      (voltages (Some (fl 1.8)) (Some (fl 3.3)) None) [''clk30'']) 0 = Inr 10998 \<and>
   pwm_timer_limit (ButterStickPlatform 30000000
      (voltages (Some (fl 1.8)) (Some (fl 3.3)) None) [''clk30'']) 1 = Inr 1549"
proof -
  let ?p = "ButterStickPlatform 30000000 (voltages (Some (fl 1.8)) (Some (fl 3.3)) None) [''clk30'']"
  have v0: "vccio_voltage ?p 0 = Some (fl 1.8)" and v1: "vccio_voltage ?p 1 = Some (fl 3.3)"
    by (simp_all add: ButterStick_fields voltages_simps)
  have b: "- 1000 \<le> fl 1.8" "fl 1.8 \<le> fl 3.3" "fl 3.3 \<le> 1000" by code_simp+
  have t18: "trunc (fl (limit_float (fl 1.8) * 2 ^ 14)) = 10998"
    unfolding limit_float_def by code_simp
  have t33: "trunc (fl (limit_float (fl 3.3) * 2 ^ 14)) = 1549"
    unfolding limit_float_def by code_simp
  show ?thesis using threshold_antimono [OF v0 v1 b] by (simp only: t18 t33 simp_thms)
qed

text \<open>
  C3, as stated, fails above 3.546 V: at 4.0 V the product is about -2859.8, which
  \<open>int\<close> truncates to -2859, while the floor of the formula is -2860.
\<close>

theorem threshold_is_not_floor:
  "pwm_timer_limit (ButterStickPlatform 30000000 (voltages (Some 4) None None) [''clk30'']) 0
   \<noteq> Inr \<lfloor>(3.546 - 4) / 2.601 * 2 ^ 14 :: real\<rfloor>"
proof -
  let ?p = "ButterStickPlatform 30000000 (voltages (Some 4) None None) [''clk30'']"
  have v: "vccio_voltage ?p 0 = Some 4" by (simp add: ButterStick_fields voltages_simps)
  have t4: "trunc (fl (limit_float 4 * 2 ^ 14)) = - 2859"
    unfolding limit_float_def by code_simp
  have b: "- 1000 \<le> (4::real)" "(4::real) \<le> 1000" by simp_all
  have "pwm_timer_limit ?p 0 = Inr (- 2859)"
    using pwm_timer_limit_value [OF v b] by (simp only: t4)
  moreover have "\<lfloor>(3.546 - 4) / 2.601 * 2 ^ 14 :: real\<rfloor> = - 2860" by code_simp
  ultimately show ?thesis by simp
qed

text \<open>
  C3, amended. For a target voltage \<open>v\<close> (between -1000 V and 1000 V) the threshold
  is the product \<open>((3.546 - v) / 2.601) * 2^14\<close>, evaluated in double precision and
  truncated toward zero: its floor when \<open>v\<close> is at most the double 3.546, its ceiling
  above. At 3.3 V it is 1549.
\<close>

theorem threshold_truncates:
  assumes "vccio_voltage p i = Some v" and "- 1000 \<le> v" and "v \<le> 1000"
  shows "pwm_timer_limit p i =
           Inr (if v \<le> fl 3.546 then \<lfloor>fl (fl (fl (fl 3.546 - v) / fl 2.601) * 2 ^ 14)\<rfloor>
                else \<lceil>fl (fl (fl (fl 3.546 - v) / fl 2.601) * 2 ^ 14)\<rceil>)"
proof (cases "v \<le> fl 3.546")
  case True
  then have "trunc (fl (limit_float v * 2 ^ 14)) = \<lfloor>fl (limit_float v * 2 ^ 14)\<rfloor>"
    using product_nonneg [of v] by (simp add: trunc_def)
  then show ?thesis
    using pwm_timer_limit_value [OF assms] True by (simp add: limit_float_def)
next
  case False
  then have "trunc (fl (limit_float v * 2 ^ 14)) = \<lceil>fl (limit_float v * 2 ^ 14)\<rceil>"
    using product_neg [of v] by (simp add: trunc_def)
  then show ?thesis
    using pwm_timer_limit_value [OF assms] False by (simp add: limit_float_def)
qed

theorem threshold_truncates_witness:
  "pwm_timer_limit (ButterStickPlatform 30000000
      (voltages (Some (fl 3.3)) (Some 4) None) [''clk30'']) 0 = Inr 1549 \<and>
   pwm_timer_limit (ButterStickPlatform 30000000
      (voltages (Some (fl 3.3)) (Some 4) None) [''clk30'']) 1 = Inr (- 2859)"
proof -
  let ?p = "ButterStickPlatform 30000000 (voltages (Some (fl 3.3)) (Some 4) None) [''clk30'']"
  have v0: "vccio_voltage ?p 0 = Some (fl 3.3)" and v1: "vccio_voltage ?p 1 = Some 4"
    by (simp_all add: ButterStick_fields voltages_simps)
  have b: "- 1000 \<le> fl 3.3" "fl 3.3 \<le> 1000" by code_simp+
  have b4: "- 1000 \<le> (4::real)" "(4::real) \<le> 1000" by simp_all
  have e0: "(if fl 3.3 \<le> fl 3.546
             then \<lfloor>fl (fl (fl (fl 3.546 - fl 3.3) / fl 2.601) * 2 ^ 14)\<rfloor>
             else \<lceil>fl (fl (fl (fl 3.546 - fl 3.3) / fl 2.601) * 2 ^ 14)\<rceil>) = 1549"
    by code_simp
  have e1: "(if 4 \<le> fl 3.546
             then \<lfloor>fl (fl (fl (fl 3.546 - 4) / fl 2.601) * 2 ^ 14)\<rfloor>
             else \<lceil>fl (fl (fl (fl 3.546 - 4) / fl 2.601) * 2 ^ 14)\<rceil>) = - 2859"
    by code_simp
  have "pwm_timer_limit ?p 0 = Inr 1549"
    using threshold_truncates [OF v0 b] by (simp only: e0)
  moreover have "pwm_timer_limit ?p 1 = Inr (- 2859)"
    using threshold_truncates [OF v1 b4] by (simp only: e1)
  ultimately show ?thesis by simp
qed

text \<open>
  C6, as stated, fails twice. At 3.3 V the code's threshold is 1549, where rounding
  gives 1550; at 0.9 V it is 16667, beyond the counter's range, where clamping gives
  16383.
\<close>

theorem threshold_is_not_rounded_or_clamped:
  "pwm_timer_limit (ButterStickPlatform 30000000
      (voltages (Some (fl 3.3)) (Some (fl 0.9)) None) [''clk30'']) 0 = Inr 1549 \<and>
   spec_threshold (fl 3.3) = 1550 \<and>
   pwm_timer_limit (ButterStickPlatform 30000000
      (voltages (Some (fl 3.3)) (Some (fl 0.9)) None) [''clk30'']) 1 = Inr 16667 \<and>
   spec_threshold (fl 0.9) = 16383"
proof -
  let ?p = "ButterStickPlatform 30000000 (voltages (Some (fl 3.3)) (Some (fl 0.9)) None) [''clk30'']"
  have v0: "vccio_voltage ?p 0 = Some (fl 3.3)" and v1: "vccio_voltage ?p 1 = Some (fl 0.9)"
    by (simp_all add: ButterStick_fields voltages_simps)
  have b0: "- 1000 \<le> fl 3.3" "fl 3.3 \<le> 1000" by code_simp+
  have b1: "- 1000 \<le> fl 0.9" "fl 0.9 \<le> 1000" by code_simp+
  have t33: "trunc (fl (limit_float (fl 3.3) * 2 ^ 14)) = 1549"
    unfolding limit_float_def by code_simp
  have t09: "trunc (fl (limit_float (fl 0.9) * 2 ^ 14)) = 16667"
    unfolding limit_float_def by code_simp
  have 1: "pwm_timer_limit ?p 0 = Inr 1549"
    using pwm_timer_limit_value [OF v0 b0] by (simp only: t33)
  have 2: "pwm_timer_limit ?p 1 = Inr 16667"
    using pwm_timer_limit_value [OF v1 b1] by (simp only: t09)
  have 3: "spec_threshold (fl 3.3) = 1550" unfolding spec_threshold_def by code_simp
  have 4: "spec_threshold (fl 0.9) = 16383" unfolding spec_threshold_def by code_simp
  show ?thesis using 1 2 3 4 by simp
qed

text \<open>
  C6, amended. The stored threshold is the product \<open>((3.546 - v) / 2.601) * 2^14\<close>,
  evaluated in double precision, truncated toward zero and not clamped; for a target
  voltage from 0.9451 V to 3.546 V it lies in the counter's range 0..16383.
\<close>

theorem threshold_in_counter_range:
  assumes "vccio_voltage p i = Some v" and "0.9451 \<le> v" and "v \<le> 3.546"
  shows "pwm_timer_limit p i = Inr (trunc (fl (limit_float v * 2 ^ 14))) \<and>
         0 \<le> trunc (fl (limit_float v * 2 ^ 14)) \<and>
         trunc (fl (limit_float v * 2 ^ 14)) \<le> 2 ^ 14 - 1"
proof -
  have lo: "trunc (fl (limit_float 0.9451 * 2 ^ 14)) = 16383"
    unfolding limit_float_def by code_simp
  have hi: "trunc (fl (limit_float 3.546 * 2 ^ 14)) = 0"
    unfolding limit_float_def by code_simp
  have "trunc (fl (limit_float 3.546 * 2 ^ 14)) \<le> trunc (fl (limit_float v * 2 ^ 14))"
    using assms(3) by (intro trunc_mono product_antimono)
  then have 1: "0 \<le> trunc (fl (limit_float v * 2 ^ 14))" by (simp only: hi)
  have "trunc (fl (limit_float v * 2 ^ 14)) \<le> trunc (fl (limit_float 0.9451 * 2 ^ 14))"
    using assms(2) by (intro trunc_mono product_antimono)
  then have "trunc (fl (limit_float v * 2 ^ 14)) \<le> 16383" by (simp only: lo)
  then have 2: "trunc (fl (limit_float v * 2 ^ 14)) \<le> 2 ^ 14 - 1" by simp
  have "pwm_timer_limit p i = Inr (trunc (fl (limit_float v * 2 ^ 14)))"
    using assms by (intro pwm_timer_limit_value) auto
  then show ?thesis using 1 2 by simp
qed

theorem threshold_in_counter_range_witness:
  "pwm_timer_limit (ButterStickPlatform 30000000
      (voltages (Some (fl 3.3)) (Some (fl 3.3)) (Some (fl 1.8))) [''clk30'']) 2 = Inr 10998"
proof -
  let ?p = "ButterStickPlatform 30000000
      (voltages (Some (fl 3.3)) (Some (fl 3.3)) (Some (fl 1.8))) [''clk30'']"
  have v: "vccio_voltage ?p 2 = Some (fl 1.8)"
    by (simp add: ButterStick_fields voltages_simps)
  have b: "0.9451 \<le> fl 1.8" "fl 1.8 \<le> 3.546" by code_simp+
  have t18: "trunc (fl (limit_float (fl 1.8) * 2 ^ 14)) = 10998"
    unfolding limit_float_def by code_simp
  show ?thesis using threshold_in_counter_range [OF v b] by (simp only: t18 simp_thms)
qed

text \<open>
  C10. The limit computed for a pin enters the comparison as it is, neither clamped
  nor reduced to 14 bits: the pin is high exactly when the register is below it. A limit
  above \<open>2^14 - 1\<close> (which is what every target voltage up to 0.945 V gives) holds the
  pin high on every tick, and a limit of zero or less (every target voltage from
  3.546 V up) holds it low on every tick.
\<close>

theorem limits_enter_comparison_unclamped:
  assumes "elaborate p = Inr (c, ws)" and "vccio_voltage p 0 \<noteq> None"
    and "i < 3" and "pwm_timer_limit p i = Inr l"
  shows "pdm c i t = (uint t < l) \<and>
         (2 ^ 14 - 1 < l \<longrightarrow> pdm c i t) \<and>
         (l \<le> 0 \<longrightarrow> \<not> pdm c i t) \<and>
         (\<forall>v. vccio_voltage p i = Some v \<and> - 1000 \<le> v \<and> v \<le> 0.945 \<longrightarrow> 2 ^ 14 - 1 < l) \<and>
         (\<forall>v. vccio_voltage p i = Some v \<and> 3.546 \<le> v \<and> v \<le> 1000 \<longrightarrow> l \<le> 0)"
proof -
  obtain l0 l1 l2 where c: "c = Pwm [l0, l1, l2]"
    and l: "pwm_timer_limit p 0 = Inr l0" "pwm_timer_limit p 1 = Inr l1"
      "pwm_timer_limit p 2 = Inr l2"
    using elaborate_Pwm [OF assms(1,2)] by blast
  have "i = 0 \<or> i = 1 \<or> i = 2" using assms(3) by linarith
  then have out: "pdm c i t = (uint t < l)"
    using c l assms(4) by (auto simp: pdm_def less_than_def)
  have top: "uint t < 2 ^ 14" using uint_lt2p [of t] by simp
  have high: "2 ^ 14 - 1 < l \<longrightarrow> pdm c i t" using out top by auto
  have low: "l \<le> 0 \<longrightarrow> \<not> pdm c i t"
  proof
    assume "l \<le> 0"
    then have "\<not> uint t < l" using uint_ge_0 [of t] by linarith
    then show "\<not> pdm c i t" by (simp only: out simp_thms)
  qed
  have below: "2 ^ 14 - 1 < l" if v: "vccio_voltage p i = Some v" "- 1000 \<le> v" "v \<le> 0.945" for v
  proof -
    have e: "trunc (fl (limit_float 0.945 * 2 ^ 14)) = 16384"
      unfolding limit_float_def by code_simp
    have "l = trunc (fl (limit_float v * 2 ^ 14))"
      using pwm_timer_limit_value [OF v(1,2)] v(3) assms(4) by simp
    moreover have "trunc (fl (limit_float 0.945 * 2 ^ 14)) \<le> trunc (fl (limit_float v * 2 ^ 14))"
      using v(3) by (intro trunc_mono product_antimono)
    ultimately have "16384 \<le> l" by (simp only: e)
    then show ?thesis by simp
  qed
  have above: "l \<le> 0" if v: "vccio_voltage p i = Some v" "3.546 \<le> v" "v \<le> 1000" for v
  proof -
    have e: "trunc (fl (limit_float 3.546 * 2 ^ 14)) = 0"
      unfolding limit_float_def by code_simp
    have "l = trunc (fl (limit_float v * 2 ^ 14))"
      using pwm_timer_limit_value [OF v(1) _ v(3)] v(2) assms(4) by simp
    moreover have "trunc (fl (limit_float v * 2 ^ 14)) \<le> trunc (fl (limit_float 3.546 * 2 ^ 14))"
      using v(2) by (intro trunc_mono product_antimono)
    ultimately show ?thesis by (simp only: e)
  qed
  show ?thesis using out high low below above by blast
qed

theorem limits_enter_comparison_unclamped_witness:
  "elaborate (ButterStickPlatform 30000000
      (voltages (Some (fl 0.9)) (Some 4) (Some (fl 3.3))) [''clk30'']) =
     Inr (Pwm [16667, - 2859, 1549], []) \<and>
   pdm (Pwm [16667, - 2859, 1549]) 0 (- 1) \<and>
   \<not> pdm (Pwm [16667, - 2859, 1549]) 1 0"
proof -
  let ?p = "ButterStickPlatform 30000000
      (voltages (Some (fl 0.9)) (Some 4) (Some (fl 3.3))) [''clk30'']"
  have v0: "vccio_voltage ?p 0 = Some (fl 0.9)" and v1: "vccio_voltage ?p 1 = Some 4"
    and v2: "vccio_voltage ?p 2 = Some (fl 3.3)"
    by (simp_all add: ButterStick_fields voltages_simps)
  have b0: "- 1000 \<le> fl 0.9" "fl 0.9 \<le> 1000" by code_simp+
  have b1: "- 1000 \<le> (4::real)" "(4::real) \<le> 1000" by simp_all
  have b2: "- 1000 \<le> fl 3.3" "fl 3.3 \<le> 1000" by code_simp+
  have t0: "trunc (fl (limit_float (fl 0.9) * 2 ^ 14)) = 16667"
    unfolding limit_float_def by code_simp
  have t1: "trunc (fl (limit_float 4 * 2 ^ 14)) = - 2859"
    unfolding limit_float_def by code_simp
  have t2: "trunc (fl (limit_float (fl 3.3) * 2 ^ 14)) = 1549"
    unfolding limit_float_def by code_simp
  have l0: "pwm_timer_limit ?p 0 = Inr 16667"
    using pwm_timer_limit_value [OF v0 b0] by (simp only: t0)
  have l1: "pwm_timer_limit ?p 1 = Inr (- 2859)"
    using pwm_timer_limit_value [OF v1 b1] by (simp only: t1)
  have l2: "pwm_timer_limit ?p 2 = Inr 1549"
    using pwm_timer_limit_value [OF v2 b2] by (simp only: t2)
  have n: "vccio_voltage ?p 0 \<noteq> None" using v0 by simp
  have el: "elaborate ?p = Inr (Pwm [16667, - 2859, 1549], [])"
    using l0 l1 l2 v0 by (simp add: elaborate_def)
  have i0: "(0::nat) < 3" and i1: "(1::nat) < 3" by simp_all
  have g0: "(2::int) ^ 14 - 1 < 16667" and g1: "(- 2859::int) \<le> 0" by simp_all
  have "pdm (Pwm [16667, - 2859, 1549]) 0 (- 1)"
    using limits_enter_comparison_unclamped [OF el n i0 l0, of "- 1"] g0 by blast
  moreover have "\<not> pdm (Pwm [16667, - 2859, 1549]) 1 0"
    using limits_enter_comparison_unclamped [OF el n i1 l1, of 0] g1 by blast
  ultimately show ?thesis using el by blast
qed

section \<open>Regulator control: duty cycle and missing voltages\<close>

lemma ticks_length: "length (ticks c rsts t) = length rsts"
  by (induction rsts arbitrary: t) simp_all

lemma ticks_map: "ticks (Pwm ls) (replicate n False) t = map (\<lambda>i. t + of_nat i) [0..<n]"
proof (induction n arbitrary: t)
  case 0
  then show ?case by simp
next
  case (Suc n)
  have "[0..<Suc n] = 0 # map Suc [0..<n]"
    by (simp only: map_Suc_upt upt_conv_Cons [of 0 "Suc n"] zero_less_Suc if_True)
  then have "map (\<lambda>i. t + of_nat i) [0..<Suc n] = t # map (\<lambda>i. t + 1 + of_nat i) [0..<n]"
    by (simp add: add.assoc comp_def del: upt_Suc)
  then show ?case using Suc.IH [of "t + 1"] by (simp add: next_timer_def del: upt_Suc)
qed

lemma ticks_distinct: "n \<le> 2 ^ 14 \<Longrightarrow> distinct (ticks (Pwm ls) (replicate n False) t)"
proof -
  assume n: "n \<le> 2 ^ 14"
  have "inj_on (\<lambda>i. t + (of_nat i :: timer)) {0..<n}"
  proof (rule inj_onI)
    fix i j assume i: "i \<in> {0..<n}" and j: "j \<in> {0..<n}"
      and e: "t + (of_nat i :: timer) = t + of_nat j"
    from e have "(of_nat i :: timer) = of_nat j" by simp
    then have "i mod 2 ^ 14 = j mod 2 ^ 14" by (simp add: word_of_nat_eq_iff take_bit_eq_mod)
    then show "i = j" using i j n by simp
  qed
  then show ?thesis by (simp add: ticks_map distinct_map)
qed

lemma ticks_period_all:
  assumes "n = 2 ^ 14"
  shows "set (ticks (Pwm ls) (replicate n False) t) = UNIV"
proof -
  let ?xs = "ticks (Pwm ls) (replicate n False) t"
  have d: "distinct ?xs" by (rule ticks_distinct) (simp add: assms)
  have "card (set ?xs) = n" using d by (simp add: distinct_card ticks_length)
  also have "n = CARD(timer)" by (simp add: assms card_word)
  finally show ?thesis by (simp add: card_eq_UNIV_imp_eq_UNIV)
qed

lemma card_below:
  assumes "0 \<le> l" "l \<le> 2 ^ 14"
  shows "card {t :: timer. uint t < l} = nat l"
proof -
  have nl: "nat l \<le> 2 ^ 14" using assms by simp
  have "{t :: timer. uint t < l} = of_nat ` {0..<nat l}"
  proof (rule set_eqI, rule iffI)
    fix t :: timer assume "t \<in> {t. uint t < l}"
    then have u: "uint t < l" by (rule CollectD)
    have "0 \<le> uint t" by (rule uint_ge_0)
    then have "nat (uint t) < nat l" using u by linarith
    then have "unat t \<in> {0..<nat l}" by (simp only: unat_eq_nat_uint atLeastLessThan_iff le0 simp_thms)
    moreover have "t = of_nat (unat t)" by simp
    ultimately show "t \<in> of_nat ` {0..<nat l}" by (rule image_eqI [rotated])
  next
    fix t :: timer assume "t \<in> of_nat ` {0..<nat l}"
    then obtain i where i: "i < nat l" and t: "t = of_nat i" by auto
    have "i < 2 ^ 14" using i nl by linarith
    then have "unat t = i" using t by (simp add: unat_of_nat)
    then have "uint t = int i" by (simp add: uint_nat)
    then show "t \<in> {t. uint t < l}" using i by simp
  qed
  moreover have "inj_on (of_nat :: nat \<Rightarrow> timer) {0..<nat l}"
  proof (rule inj_onI)
    fix i j assume i: "i \<in> {0..<nat l}" and j: "j \<in> {0..<nat l}"
      and e: "(of_nat i :: timer) = of_nat j"
    have "i < 2 ^ 14" "j < 2 ^ 14" using i j nl by auto
    moreover from e have "i mod 2 ^ 14 = j mod 2 ^ 14" by (simp add: word_of_nat_eq_iff take_bit_eq_mod)
    ultimately show "i = j" by simp
  qed
  ultimately show ?thesis by (simp add: card_image)
qed

lemma high_ticks_period:
  assumes "i < length ls" "0 \<le> ls ! i" "ls ! i \<le> 2 ^ 14"
  shows "high_ticks (Pwm ls) i (replicate (2 ^ 14) False) t = nat (ls ! i)"
proof -
  have "high_ticks (Pwm ls) i (replicate (2 ^ 14) False) t = card ({x. pdm (Pwm ls) i x} \<inter> set (ticks (Pwm ls) (replicate (2 ^ 14) False) t))"
    unfolding high_ticks_def by (rule distinct_length_filter) (rule ticks_distinct, rule order_refl)
  also have "\<dots> = card {x. pdm (Pwm ls) i x}"
    by (simp only: ticks_period_all [OF refl] Int_UNIV_right)
  also have "\<dots> = card {x :: timer. uint x < ls ! i}"
    using assms(1) by (simp add: pdm_def less_than_def)
  also have "\<dots> = nat (ls ! i)" using assms(2,3) by (rule card_below)
  finally show ?thesis .
qed


lemma ticks_held_in_reset: "ticks (Pwm ls) (replicate n True) 0 = replicate n 0"
  by (induction n) (simp_all add: next_timer_def)

lemma high_ticks_held_in_reset:
  "pdm (Pwm ls) i 0 \<Longrightarrow> high_ticks (Pwm ls) i (replicate n True) 0 = n"
  by (simp add: high_ticks_def ticks_held_in_reset)

lemma elaborate_pmod_limits: "elaborate_pmod = Pwm [1638, 1638, 11468]"
  unfolding elaborate_pmod_def by code_simp

lemma limits_33_33_18:
  "pwm_timer_limit (ButterStickPlatform 30000000
      (voltages (Some (fl 3.3)) (Some (fl 3.3)) v2) [''clk30'']) 0 = Inr 1549"
  "pwm_timer_limit (ButterStickPlatform 30000000
      (voltages (Some (fl 3.3)) (Some (fl 3.3)) v2) [''clk30'']) 1 = Inr 1549"
  "pwm_timer_limit (ButterStickPlatform 30000000
      (voltages (Some (fl 3.3)) (Some (fl 3.3)) (Some (fl 1.8))) [''clk30'']) 2 = Inr 10998"
  "pwm_timer_limit (ButterStickPlatform 30000000
      (voltages (Some (fl 3.3)) (Some (fl 3.3)) None) [''clk30'']) 2 = Inl TypeError"
proof -
  have b33: "- 1000 \<le> fl 3.3" "fl 3.3 \<le> 1000" by code_simp+
  have b18: "- 1000 \<le> fl 1.8" "fl 1.8 \<le> 1000" by code_simp+
  have t33: "trunc (fl (limit_float (fl 3.3) * 2 ^ 14)) = 1549"
    unfolding limit_float_def by code_simp
  have t18: "trunc (fl (limit_float (fl 1.8) * 2 ^ 14)) = 10998"
    unfolding limit_float_def by code_simp
  let ?p = "ButterStickPlatform 30000000 (voltages (Some (fl 3.3)) (Some (fl 3.3)) v2) [''clk30'']"
  have "vccio_voltage ?p 0 = Some (fl 3.3)" by (simp add: ButterStick_fields voltages_simps)
  from pwm_timer_limit_value [OF this b33] show "pwm_timer_limit ?p 0 = Inr 1549"
    by (simp only: t33)
  have "vccio_voltage ?p 1 = Some (fl 3.3)" by (simp add: ButterStick_fields voltages_simps)
  from pwm_timer_limit_value [OF this b33] show "pwm_timer_limit ?p 1 = Inr 1549"
    by (simp only: t33)
  let ?q = "ButterStickPlatform 30000000
      (voltages (Some (fl 3.3)) (Some (fl 3.3)) (Some (fl 1.8))) [''clk30'']"
  have "vccio_voltage ?q 2 = Some (fl 1.8)" by (simp add: ButterStick_fields voltages_simps)
  from pwm_timer_limit_value [OF this b18] show "pwm_timer_limit ?q 2 = Inr 10998"
    by (simp only: t18)
  show "pwm_timer_limit (ButterStickPlatform 30000000
      (voltages (Some (fl 3.3)) (Some (fl 3.3)) None) [''clk30'']) 2 = Inl TypeError"
    by (simp add: pwm_timer_limit_def ButterStick_fields voltages_simps)
qed

lemma elaborate_33_33_18:
  "elaborate (ButterStickPlatform 30000000
      (voltages (Some (fl 3.3)) (Some (fl 3.3)) (Some (fl 1.8))) [''clk30'']) =
   Inr (Pwm [1549, 1549, 10998], [])"
  using limits_33_33_18 (1,2) [of "Some (fl 1.8)"] limits_33_33_18 (3)
  by (simp add: elaborate_def ButterStick_fields voltages_simps)


text \<open>
  C7, as stated, fails on a window in which the \<open>sync\<close> domain is held in reset (the
  PLL not locked): the register stays at 0, and the pin whose threshold is 1549 is high
  on all \<open>2^14\<close> ticks of the window, not on 1549 of them.
\<close>

theorem duty_lost_in_reset:
  "elaborate (ButterStickPlatform 30000000
      (voltages (Some (fl 3.3)) (Some (fl 3.3)) (Some (fl 1.8))) [''clk30'']) =
     Inr (Pwm [1549, 1549, 10998], []) \<and>
   high_ticks (Pwm [1549, 1549, 10998]) 0 (replicate (2 ^ 14) True) 0 = 2 ^ 14 \<and>
   high_ticks (Pwm [1549, 1549, 10998]) 0 (replicate (2 ^ 14) True) 0 \<noteq> 1549"
proof -
  have "pdm (Pwm [1549, 1549, 10998]) 0 0" by (simp add: pdm_def less_than_def)
  then have "high_ticks (Pwm [1549, 1549, 10998]) 0 (replicate (2 ^ 14) True) 0 = 2 ^ 14"
    by (rule high_ticks_held_in_reset)
  then show ?thesis using elaborate_33_33_18 by simp
qed

text \<open>
  C7, amended. In the module that \<open>elaborate\<close> builds, and in the module of the two
  demos, each \<open>pdm\<close> pin is high on a tick exactly when the value of \<open>pwm_timer\<close> on
  that tick is below the pin's threshold, a function of the register alone. The
  register steps by one on a tick without reset and returns to 0 on a tick with reset.
  For a threshold between 0 and \<open>2^14 - 1\<close> the pin is high on exactly that many of
  any \<open>2^14\<close> consecutive ticks on which the \<open>sync\<close> domain is not in reset.
\<close>

theorem pwm_duty:
  assumes "elaborate p = Inr (c, ws)" and "vccio_voltage p 0 \<noteq> None" and "i < 3"
    and "pwm_timer_limit p i = Inr l" and "0 \<le> l" and "l \<le> 2 ^ 14 - 1"
  shows "pdm c i t = (uint t < l) \<and>
         next_timer c False t = t + 1 \<and>
         next_timer c True t = 0 \<and>
         high_ticks c i (replicate (2 ^ 14) False) t = nat l \<and>
         pdm elaborate_pmod i t = (uint t < [1638, 1638, 11468] ! i) \<and>
         next_timer elaborate_pmod False t = t + 1 \<and>
         next_timer elaborate_pmod True t = 0 \<and>
         high_ticks elaborate_pmod i (replicate (2 ^ 14) False) t = nat ([1638, 1638, 11468] ! i)"
proof -
  obtain l0 l1 l2 where c: "c = Pwm [l0, l1, l2]"
    and l: "pwm_timer_limit p 0 = Inr l0" "pwm_timer_limit p 1 = Inr l1"
      "pwm_timer_limit p 2 = Inr l2"
    using elaborate_Pwm [OF assms(1,2)] by blast
  have i: "i = 0 \<or> i = 1 \<or> i = 2" using assms(3) by linarith
  then have li: "[l0, l1, l2] ! i = l" using l assms(4) by auto
  have len: "i < length [l0, l1, l2]" using assms(3) by simp
  have "[l0, l1, l2] ! i \<le> 2 ^ 14" using li assms(6) by simp
  then have "high_ticks (Pwm [l0, l1, l2]) i (replicate (2 ^ 14) False) t = nat ([l0, l1, l2] ! i)"
    using len li assms(5) by (intro high_ticks_period) simp_all
  then have 1: "high_ticks c i (replicate (2 ^ 14) False) t = nat l" by (simp only: c li)
  have 2: "pdm c i t = (uint t < l)" using len li by (simp add: c pdm_def less_than_def)
  have 3: "next_timer c False t = t + 1" "next_timer c True t = 0"
    by (simp_all add: c next_timer_def)
  let ?ls = "[1638, 1638, 11468] :: int list"
  have plen: "i < length ?ls" using assms(3) by simp
  have "0 \<le> ?ls ! i" "?ls ! i \<le> 2 ^ 14" using i by auto
  then have "high_ticks (Pwm ?ls) i (replicate (2 ^ 14) False) t = nat (?ls ! i)"
    using plen by (intro high_ticks_period)
  then have 4: "high_ticks elaborate_pmod i (replicate (2 ^ 14) False) t = nat (?ls ! i)"
    by (simp only: elaborate_pmod_limits)
  have 5: "pdm elaborate_pmod i t = (uint t < ?ls ! i)"
    using plen by (simp add: elaborate_pmod_limits pdm_def less_than_def)
  have 6: "next_timer elaborate_pmod False t = t + 1" "next_timer elaborate_pmod True t = 0"
    by (simp_all add: elaborate_pmod_limits next_timer_def)
  show ?thesis using 1 2 3 4 5 6 by blast
qed

theorem pwm_duty_witness:
  "high_ticks (Pwm [1549, 1549, 10998]) 2 (replicate (2 ^ 14) False) 5 = 10998 \<and>
   high_ticks elaborate_pmod 2 (replicate (2 ^ 14) False) 5 = 11468"
proof -
  let ?p = "ButterStickPlatform 30000000
      (voltages (Some (fl 3.3)) (Some (fl 3.3)) (Some (fl 1.8))) [''clk30'']"
  have n: "vccio_voltage ?p 0 \<noteq> None" by (simp add: ButterStick_fields voltages_simps)
  have i: "(2::nat) < 3" and lo: "(0::int) \<le> 10998" and hi: "(10998::int) \<le> 2 ^ 14 - 1"
    by simp_all
  show ?thesis
    using pwm_duty [OF elaborate_33_33_18 n i limits_33_33_18(3) lo hi, of 5] by simp
qed




end
